theory Spec2Isabelle
  imports Main "HOL-Library.Sublist"
begin

section \<open>Strings of the host language\<close>

text \<open>
  The repository is TypeScript: a string is a sequence of UTF-16 code units. A \<^typ>\<open>char\<close>
  stands for a code unit below 256 (ASCII and Latin-1), which covers every literal of the
  source (\<open>'latest'\<close>, \<open>'favorite'\<close>).
\<close>

text \<open>\<open>String.prototype.includes\<close>: the argument occurs as a contiguous run of code units.\<close>

fun String_includes :: "string \<Rightarrow> string \<Rightarrow> bool" where
  "String_includes [] t = (t = [])"
| "String_includes (c # s) t = (prefix t (c # s) \<or> String_includes s t)"

text \<open>
  \<open>String.prototype.toLowerCase\<close> on code units below 256: \<open>A\<close>..\<open>Z\<close> and the
  Latin-1 capitals U+00C0..U+00DE (without the multiplication sign U+00D7) move up by 32,
  every other code unit stays.
\<close>

definition toLowerCase_unit :: "char \<Rightarrow> char" where
  "toLowerCase_unit c =
     (let n = (of_char c :: nat)
      in if (65 \<le> n \<and> n \<le> 90) \<or> (192 \<le> n \<and> n \<le> 222 \<and> n \<noteq> 215)
         then char_of (n + 32) else c)"

definition toLowerCase :: "string \<Rightarrow> string" where
  "toLowerCase s = map toLowerCase_unit s"

text \<open>
  \<open>String.prototype.trim\<close> removes white space and line terminators from both ends;
  below 256 these are TAB, LF, VT, FF, CR, SPACE and NO-BREAK SPACE.
\<close>

definition isWhiteSpace :: "char \<Rightarrow> bool" where
  "isWhiteSpace c = ((of_char c :: nat) \<in> {9, 10, 11, 12, 13, 32, 160})"

definition trim :: "string \<Rightarrow> string" where
  "trim s = rev (dropWhile isWhiteSpace (rev (dropWhile isWhiteSpace s)))"

section \<open>Data model\<close>

text \<open>
  Modelled from the spec: the declarations of \<open>ProjectDetails\<close>, \<open>Project\<close> and of the
  search results (\<open>models/ProjectDetails\<close>, \<open>models/ProjectsResponse\<close>,
  \<open>models/SearchResult\<close>) are imported by the source file but are not among the sources.
  The records hold the fields the functions read or build, which are those of
  \<open>VersionDescriptor\<close>, \<open>ProjectDescriptor\<close> and \<open>SearchResult\<close> in section 3 of
  the specification.
\<close>

record ProjectDetails =
  name :: string
  tags :: "string list"
  hidden :: bool

record Project =
  name :: string
  versions :: "ProjectDetails list"

record ProjectSearchResult =
  name :: string

record VersionSearchResult =
  project :: string
  version :: string

record SearchResult =
  projects :: "ProjectSearchResult list"
  versions :: "VersionSearchResult list"

text \<open>
  The parameter type of \<open>compareVersions\<close>, \<open>{ name: string, tags?: string[] }\<close>:
  \<open>tags\<close> may be absent (\<open>None\<close>). A \<open>ProjectDetails\<close> is passed where this type is
  expected; \<open>asNameTags\<close> is that structural view.
\<close>

record NameTags =
  name :: string
  tags :: "string list option"

definition asNameTags :: "ProjectDetails \<Rightarrow> NameTags" where
  "asNameTags v = \<lparr>NameTags.name = ProjectDetails.name v, tags = Some (ProjectDetails.tags v)\<rparr>"

section \<open>The \<open>semver\<close> package and \<open>localeCompare\<close>\<close>

text \<open>
  \<open>compareVersions\<close> calls \<open>semver.coerce\<close>, \<open>semver.compare\<close> and
  \<open>String.prototype.localeCompare\<close>, none of which is code of the repository.

  \<^item> A coerced version is a \<open>SemVer\<close> with \<open>major\<close>, \<open>minor\<close> and \<open>patch\<close>;
    \<open>coerce\<close> without options never yields a prerelease. \<open>semver.compare\<close> on two such
    values is \<open>compareMain\<close>: the first non-zero of the three \<open>compareIdentifiers\<close>.
  \<^item> \<open>semver.coerce\<close> is a parameter \<open>coerce\<close> of the functions below, \<open>None\<close> for
    \<open>null\<close>; \<open>semver_coerce\<close> is the package's algorithm, used for closed examples.
  \<^item> \<open>localeCompare\<close> depends on the locale of the host and is a parameter
    \<open>localeCompare\<close> of the functions below.
\<close>

record SemVer =
  major :: int
  minor :: int
  patch :: int

definition compareIdentifiers :: "int \<Rightarrow> int \<Rightarrow> int" where
  "compareIdentifiers a b = (if a = b then 0 else if a < b then - 1 else 1)"

definition semver_compare :: "SemVer \<Rightarrow> SemVer \<Rightarrow> int" where
  "semver_compare a b =
     (if compareIdentifiers (major a) (major b) \<noteq> 0 then compareIdentifiers (major a) (major b)
      else if compareIdentifiers (minor a) (minor b) \<noteq> 0 then compareIdentifiers (minor a) (minor b)
      else compareIdentifiers (patch a) (patch b))"

text \<open>
  \<open>semver.coerce\<close> (version 7, no options) searches the string for the first match of
  \<open>(^|[^\d])(\d{1,16})(?:\.(\d{1,16}))?(?:\.(\d{1,16}))?(?:$|[^\d])\<close> and parses
  \<open>major.minor.patch\<close> (\<open>0\<close> for a group that did not match) as a strict version. The
  match starts at the first maximal run of digits that is at most 16 long (\<open>coerceMajor\<close>);
  each of the two optional groups takes a dot and a whole run of 1 to 16 digits
  (\<open>coerceNext\<close>). Parsing fails on a component with a leading zero or above
  \<open>Number.MAX_SAFE_INTEGER\<close> (\<open>numericIdentifier\<close>).
\<close>

definition isDigit :: "char \<Rightarrow> bool" where
  "isDigit c = (48 \<le> (of_char c :: nat) \<and> (of_char c :: nat) \<le> 57)"

function coerceMajor :: "string \<Rightarrow> (string \<times> string) option" where
  "coerceMajor s =
     (case dropWhile (\<lambda>c. \<not> isDigit c) s of
        [] \<Rightarrow> None
      | d # r \<Rightarrow>
         (if length (takeWhile isDigit r) < 16
          then Some (d # takeWhile isDigit r, dropWhile isDigit r)
          else coerceMajor (dropWhile isDigit r)))"
  by pat_completeness auto
termination
proof (relation "measure length")
  show "wf (measure length)" by simp
next
  fix s :: string and d r
  assume "dropWhile (\<lambda>c. \<not> isDigit c) s = d # r"
  then have "length (d # r) \<le> length s"
    by (metis length_dropWhile_le)
  moreover have "length (dropWhile isDigit r) \<le> length r"
    by (rule length_dropWhile_le)
  ultimately show "(dropWhile isDigit r, s) \<in> measure length" by simp
qed

definition coerceNext :: "string \<Rightarrow> (string \<times> string) option" where
  "coerceNext s =
     (case s of
        [] \<Rightarrow> None
      | c # r \<Rightarrow>
         (if c = CHR ''.'' \<and> 1 \<le> length (takeWhile isDigit r)
               \<and> length (takeWhile isDigit r) \<le> 16
          then Some (takeWhile isDigit r, dropWhile isDigit r) else None))"

definition decimal :: "string \<Rightarrow> int" where
  "decimal ds = foldl (\<lambda>n c. 10 * n + (of_char c - 48)) 0 ds"

definition numericIdentifier :: "string \<Rightarrow> int option" where
  "numericIdentifier ds =
     (if (ds = ''0'' \<or> (ds \<noteq> [] \<and> hd ds \<noteq> CHR ''0'')) \<and> decimal ds \<le> 9007199254740991
      then Some (decimal ds) else None)"

definition semver_parse :: "string \<Rightarrow> string \<Rightarrow> string \<Rightarrow> SemVer option" where
  "semver_parse ma mi pa =
     (case (numericIdentifier ma, numericIdentifier mi, numericIdentifier pa) of
        (Some a, Some b, Some c) \<Rightarrow> Some \<lparr>major = a, minor = b, patch = c\<rparr>
      | _ \<Rightarrow> None)"

definition semver_coerce :: "string \<Rightarrow> SemVer option" where
  "semver_coerce s =
     (case coerceMajor s of
        None \<Rightarrow> None
      | Some (ma, r1) \<Rightarrow>
         (case coerceNext r1 of
            None \<Rightarrow> semver_parse ma ''0'' ''0''
          | Some (mi, r2) \<Rightarrow>
             (case coerceNext r2 of
                None \<Rightarrow> semver_parse ma mi ''0''
              | Some (pa, r3) \<Rightarrow> semver_parse ma mi pa)))"

text \<open>
  Two comparisons of strings, both lexicographic in a comparison of code units.
  \<open>codeUnitCompare\<close> is the plain order of the code units (what \<open><\<close> on strings
  computes). \<open>localeCompare_en\<close> is an instance of \<open>localeCompare\<close> for closed
  examples: on ASCII letters and digits it orders as the root collation of ICU does, which
  browsers and Node use for English: digits before letters, letters alphabetically without
  regard to case, and among names equal so far lower case before upper case. Every other code
  unit (punctuation, Latin-1 letters) is placed by its number, which is not where the host
  places it; the examples use names of ASCII letters and digits only.
\<close>

fun lexCompare :: "('a \<Rightarrow> 'a \<Rightarrow> int) \<Rightarrow> 'a list \<Rightarrow> 'a list \<Rightarrow> int" where
  "lexCompare c [] [] = 0"
| "lexCompare c [] (y # ys) = - 1"
| "lexCompare c (x # xs) [] = 1"
| "lexCompare c (x # xs) (y # ys) = (if c x y = 0 then lexCompare c xs ys else c x y)"

definition compareBy :: "('a \<Rightarrow> nat) \<Rightarrow> 'a \<Rightarrow> 'a \<Rightarrow> int" where
  "compareBy f a b = (if f a = f b then 0 else if f a < f b then - 1 else 1)"

definition codeUnitCompare :: "string \<Rightarrow> string \<Rightarrow> int" where
  "codeUnitCompare a b = lexCompare (compareBy of_char) a b"

definition isUpperASCII :: "char \<Rightarrow> bool" where
  "isUpperASCII c = (65 \<le> (of_char c :: nat) \<and> (of_char c :: nat) \<le> 90)"

definition isLowerASCII :: "char \<Rightarrow> bool" where
  "isLowerASCII c = (97 \<le> (of_char c :: nat) \<and> (of_char c :: nat) \<le> 122)"

definition primaryWeight :: "char \<Rightarrow> nat" where
  "primaryWeight c =
     (if isUpperASCII c then 512 + (of_char c + 32)
      else if isLowerASCII c then 512 + of_char c
      else if isDigit c then 256 + of_char c
      else of_char c)"

definition tertiaryWeight :: "char \<Rightarrow> nat" where
  "tertiaryWeight c = (if isUpperASCII c then 1 else 0)"

definition localeCompare_en :: "string \<Rightarrow> string \<Rightarrow> int" where
  "localeCompare_en a b =
     (if lexCompare (compareBy primaryWeight) a b \<noteq> 0
      then lexCompare (compareBy primaryWeight) a b
      else lexCompare (compareBy tertiaryWeight) a b)"

section \<open>\<open>compareVersions\<close>\<close>

text \<open>\<open>x ?? []\<close>\<close>

definition orEmpty :: "'a list option \<Rightarrow> 'a list" where
  "orEmpty x = (case x of None \<Rightarrow> [] | Some ys \<Rightarrow> ys)"

definition compareVersions ::
  "(string \<Rightarrow> SemVer option) \<Rightarrow> (string \<Rightarrow> string \<Rightarrow> int) \<Rightarrow> NameTags \<Rightarrow> NameTags \<Rightarrow> int" where
  "compareVersions coerce localeCompare versionA versionB =
     (if ''latest'' \<in> set (orEmpty (NameTags.tags versionA)) then 1
      else if ''latest'' \<in> set (orEmpty (NameTags.tags versionB)) then - 1
      else
        (let semverA = coerce (NameTags.name versionA);
             semverB = coerce (NameTags.name versionB)
         in if semverA = None \<or> semverB = None
            then localeCompare (NameTags.name versionA) (NameTags.name versionB)
            else semver_compare (the semverA) (the semverB)))"

section \<open>\<open>getLatestVersion\<close>\<close>

text \<open>
  \<open>Array.prototype.sort\<close> with a comparison function sorts the array in place and
  returns it. For a consistent comparison function the language fixes the result: ascending,
  equal elements in their former order, which is what insertion from the right computes.
  For an inconsistent one the order is left to the implementation: engines differ from each
  other and from \<open>Array_sort\<close> there (on \<open>[c2, b, a10]\<close> a run-detecting sort leaves
  \<open>[a10, b, c2]\<close>, insertion from the right \<open>[c2, a10, b]\<close>). The facts below use
  \<open>Array_sort\<close> where the comparison is consistent on the input. The one exception is
  the input \<open>[a10, b, c2]\<close>, which both leave in that order, and what is stated there
  holds of every order.
\<close>

fun insertBy :: "('a \<Rightarrow> 'a \<Rightarrow> int) \<Rightarrow> 'a \<Rightarrow> 'a list \<Rightarrow> 'a list" where
  "insertBy cmp x [] = [x]"
| "insertBy cmp x (y # ys) = (if cmp x y \<le> 0 then x # y # ys else y # insertBy cmp x ys)"

definition Array_sort :: "('a \<Rightarrow> 'a \<Rightarrow> int) \<Rightarrow> 'a list \<Rightarrow> 'a list" where
  "Array_sort cmp xs = foldr (insertBy cmp) xs []"

text \<open>\<open>xs[i]\<close>: \<open>undefined\<close> (here \<open>None\<close>) outside the array, also at index \<open>-1\<close>.\<close>

definition Array_at :: "'a list \<Rightarrow> int \<Rightarrow> 'a option" where
  "Array_at xs i = (if 0 \<le> i \<and> i < int (length xs) then Some (xs ! nat i) else None)"

text \<open>The arrow function \<open>(a, b) => compareVersions(a, b)\<close> handed to \<open>sort\<close>.\<close>

definition sortComparator ::
  "(string \<Rightarrow> SemVer option) \<Rightarrow> (string \<Rightarrow> string \<Rightarrow> int)
     \<Rightarrow> ProjectDetails \<Rightarrow> ProjectDetails \<Rightarrow> int" where
  "sortComparator coerce localeCompare a b =
     compareVersions coerce localeCompare (asNameTags a) (asNameTags b)"

text \<open>
  The function returns a \<open>ProjectDetails\<close> or \<open>undefined\<close> (\<open>None\<close>); it has no
  \<open>throw\<close>. Its argument \<open>versions\<close> (here \<open>versionList\<close>) is the caller's array,
  which \<open>sort\<close> reorders in place: the second component of the result is the content of
  that array after the call.
\<close>

definition getLatestVersion ::
  "(string \<Rightarrow> SemVer option) \<Rightarrow> (string \<Rightarrow> string \<Rightarrow> int) \<Rightarrow> ProjectDetails list
     \<Rightarrow> ProjectDetails option \<times> ProjectDetails list" where
  "getLatestVersion coerce localeCompare versionList =
     (case find (\<lambda>v. String_includes (ProjectDetails.name v) ''latest'') versionList of
        Some latest \<Rightarrow> (Some latest, versionList)
      | None \<Rightarrow>
         (case find (\<lambda>v. ''latest'' \<in> set (ProjectDetails.tags v)) versionList of
            Some latestTag \<Rightarrow> (Some latestTag, versionList)
          | None \<Rightarrow>
             (let sortedVersions = Array_sort (sortComparator coerce localeCompare) versionList
              in (Array_at sortedVersions (int (length sortedVersions) - 1), sortedVersions))))"

section \<open>\<open>search\<close>\<close>

text \<open>
  \<open>search\<close> only reads its arguments, so it is a function of their values.
  \<open>some\<close> (lodash) is \<open>list_ex\<close>, \<open>flat()\<close> is \<open>concat\<close>.
\<close>

definition search :: "Project list \<Rightarrow> string \<Rightarrow> SearchResult" where
  "search projectList searchQuery =
     (let searchQueryLower = trim (toLowerCase searchQuery);
          projectResults =
            map (\<lambda>p. \<lparr>ProjectSearchResult.name = Project.name p\<rparr>)
              (filter (\<lambda>p. String_includes (toLowerCase (Project.name p)) searchQueryLower
                            \<and> list_ex (\<lambda>v. \<not> hidden v) (Project.versions p))
                 projectList);
          versionResults =
            concat (map (\<lambda>p.
                map (\<lambda>v. \<lparr>project = Project.name p, version = ProjectDetails.name v\<rparr>)
                  (filter (\<lambda>v. String_includes (toLowerCase (ProjectDetails.name v))
                                    searchQueryLower \<and> \<not> hidden v)
                     (Project.versions p)))
              projectList);
          tagResults =
            concat (map (\<lambda>p.
                concat
                  (map (\<lambda>matching. map (\<lambda>tag. \<lparr>project = Project.name p, version = tag\<rparr>) matching)
                     (map (\<lambda>v. filter (\<lambda>tag. String_includes (toLowerCase tag) searchQueryLower)
                                   (ProjectDetails.tags v))
                        (filter (\<lambda>v. \<not> hidden v) (Project.versions p)))))
              projectList)
      in \<lparr>projects = projectResults, versions = versionResults @ tagResults\<rparr>)"

text \<open>
  The specification's wording of the two groups of \<open>versions\<close>, for comparison with
  \<open>search\<close>: iterate the projects and, in each, its versions, emitting an entry for a
  version that is not hidden and whose lower-cased name contains the query; likewise iterate
  the tags of every version that is not hidden, emitting the tag.
\<close>

fun nameMatchesOf :: "string \<Rightarrow> string \<Rightarrow> ProjectDetails list \<Rightarrow> VersionSearchResult list" where
  "nameMatchesOf q pn [] = []"
| "nameMatchesOf q pn (v # vs) =
     (if \<not> hidden v \<and> String_includes (toLowerCase (ProjectDetails.name v)) q
      then \<lparr>project = pn, version = ProjectDetails.name v\<rparr> # nameMatchesOf q pn vs
      else nameMatchesOf q pn vs)"

fun versionNameMatches :: "string \<Rightarrow> Project list \<Rightarrow> VersionSearchResult list" where
  "versionNameMatches q [] = []"
| "versionNameMatches q (p # ps) =
     nameMatchesOf q (Project.name p) (Project.versions p) @ versionNameMatches q ps"

fun tagsMatching :: "string \<Rightarrow> string \<Rightarrow> string list \<Rightarrow> VersionSearchResult list" where
  "tagsMatching q pn [] = []"
| "tagsMatching q pn (t # ts) =
     (if String_includes (toLowerCase t) q
      then \<lparr>project = pn, version = t\<rparr> # tagsMatching q pn ts
      else tagsMatching q pn ts)"

fun tagMatchesOf :: "string \<Rightarrow> string \<Rightarrow> ProjectDetails list \<Rightarrow> VersionSearchResult list" where
  "tagMatchesOf q pn [] = []"
| "tagMatchesOf q pn (v # vs) =
     (if hidden v then tagMatchesOf q pn vs
      else tagsMatching q pn (ProjectDetails.tags v) @ tagMatchesOf q pn vs)"

fun tagMatches :: "string \<Rightarrow> Project list \<Rightarrow> VersionSearchResult list" where
  "tagMatches q [] = []"
| "tagMatches q (p # ps) =
     tagMatchesOf q (Project.name p) (Project.versions p) @ tagMatches q ps"

section \<open>\<open>filterHiddenVersions\<close>\<close>

text \<open>
  \<open>filterHiddenVersions\<close> assigns to the field \<open>versions\<close> of project objects, so the
  project objects live in a store: a reference is a number, \<open>object\<close> gives the content
  at a reference and \<open>fresh\<close> is the next reference that \<open>new\<close> hands out. An array of
  projects is a list of references.

  \<open>JSON.stringify\<close> reads the content behind the references; \<open>JSON.parse\<close> builds a
  new object for each element, in order.
\<close>

type_synonym ref = nat

record Store =
  object :: "ref \<Rightarrow> Project"
  fresh :: ref

definition JSON_stringify :: "Store \<Rightarrow> ref list \<Rightarrow> Project list" where
  "JSON_stringify h rs = map (object h) rs"

fun JSON_parse :: "Project list \<Rightarrow> Store \<Rightarrow> ref list \<times> Store" where
  "JSON_parse [] h = ([], h)"
| "JSON_parse (p # ps) h =
     (let (rs, h') = JSON_parse ps \<lparr>object = (object h)(fresh h := p), fresh = Suc (fresh h)\<rparr>
      in (fresh h # rs, h'))"

text \<open>\<open>p.versions = p.versions.filter(v => !v.hidden)\<close>\<close>

definition dropHidden :: "ref \<Rightarrow> Store \<Rightarrow> Store" where
  "dropHidden p h =
     h\<lparr>object := (object h)
          (p := (object h p)\<lparr>Project.versions :=
                   filter (\<lambda>v. \<not> hidden v) (Project.versions (object h p))\<rparr>)\<rparr>"

definition filterHiddenVersions :: "ref list \<Rightarrow> Store \<Rightarrow> ref list \<times> Store" where
  "filterHiddenVersions allProjects h =
     (let (projectRefs, h1) = JSON_parse (JSON_stringify h allProjects) h;
          h2 = fold dropHidden projectRefs h1
      in (filter (\<lambda>p. length (Project.versions (object h2 p)) > 0) projectRefs, h2))"

text \<open>
  The specification's wording of what happens to one project: every version with
  \<open>hidden = true\<close> is removed from its version list.
\<close>

definition withoutHidden :: "Project \<Rightarrow> Project" where
  "withoutHidden p = p\<lparr>Project.versions := filter (\<lambda>v. \<not> hidden v) (Project.versions p)\<rparr>"

section \<open>FavoriteStore: \<open>isFavorite\<close> and \<open>setFavorite\<close>\<close>

text \<open>
  \<open>localStorage\<close> is a store from string keys to string values; \<open>getItem\<close> answers
  \<open>null\<close> (here \<open>None\<close>) for a key that is not there. The two functions of the source
  read and write this ambient store, so the model passes it in and hands it back.
\<close>

type_synonym Storage = "string \<rightharpoonup> string"

definition getItem :: "Storage \<Rightarrow> string \<Rightarrow> string option" where
  "getItem st k = st k"

definition setItem :: "Storage \<Rightarrow> string \<Rightarrow> string \<Rightarrow> Storage" where
  "setItem st k v = st(k \<mapsto> v)"

definition removeItem :: "Storage \<Rightarrow> string \<Rightarrow> Storage" where
  "removeItem st k = st(k := None)"

definition isFavorite :: "string \<Rightarrow> Storage \<Rightarrow> bool" where
  "isFavorite projectName st = (getItem st projectName = Some ''favorite'')"

definition setFavorite :: "string \<Rightarrow> bool \<Rightarrow> Storage \<Rightarrow> Storage" where
  "setFavorite projectName shouldBeFavorite st =
     (if shouldBeFavorite then setItem st projectName ''favorite''
      else removeItem st projectName)"

section \<open>Example inputs\<close>

text \<open>
  Three projects: \<open>docat\<close> with a visible and a hidden version, \<open>Alpha\<close> with one
  visible version, \<open>alpha-internal\<close> with hidden versions only; and a store that holds them
  at the references 0, 1 and 2.
\<close>

abbreviation exampleProjects :: "Project list" where
  "exampleProjects \<equiv>
     [\<lparr>Project.name = ''docat'',
        versions = [\<lparr>ProjectDetails.name = ''1.0-Beta'', tags = [''v1-beta'', ''stable''], hidden = False\<rparr>,
                    \<lparr>ProjectDetails.name = ''2.0-beta'', tags = [''beta2''], hidden = True\<rparr>]\<rparr>,
      \<lparr>Project.name = ''Alpha'',
        versions = [\<lparr>ProjectDetails.name = ''1.0'', tags = [], hidden = False\<rparr>]\<rparr>,
      \<lparr>Project.name = ''alpha-internal'',
        versions = [\<lparr>ProjectDetails.name = ''0.1'', tags = [''beta''], hidden = True\<rparr>]\<rparr>]"

abbreviation exampleStore :: Store where
  "exampleStore \<equiv>
     \<lparr>object = (\<lambda>a. if a < 3 then exampleProjects ! a
                      else \<lparr>Project.name = [], versions = []\<rparr>),
      fresh = 3\<rparr>"

section \<open>Auxiliary facts\<close>

subsection \<open>Strings and lists\<close>

lemma String_includes_iff: "String_includes s t \<longleftrightarrow> (\<exists>pre post. s = pre @ t @ post)"
proof (induction s)
  case Nil
  show ?case by auto
next
  case (Cons c s)
  show ?case
  proof
    assume "String_includes (c # s) t"
    then consider "prefix t (c # s)" | "String_includes s t" by auto
    then show "\<exists>pre post. c # s = pre @ t @ post"
    proof cases
      case 1
      then obtain post where "c # s = t @ post" by (auto simp: prefix_def)
      then have "c # s = [] @ t @ post" by simp
      then show ?thesis by blast
    next
      case 2
      with Cons.IH obtain pre post where "s = pre @ t @ post" by blast
      then have "c # s = (c # pre) @ t @ post" by simp
      then show ?thesis by blast
    qed
  next
    assume "\<exists>pre post. c # s = pre @ t @ post"
    then obtain pre post where e: "c # s = pre @ t @ post" by blast
    show "String_includes (c # s) t"
    proof (cases pre)
      case Nil
      with e have "prefix t (c # s)" by (simp add: prefix_def)
      then show ?thesis by simp
    next
      case (Cons d pre')
      with e have "s = pre' @ t @ post" by simp
      with Cons.IH have "String_includes s t" by blast
      then show ?thesis by simp
    qed
  qed
qed

lemma String_includes_empty: "String_includes s []"
  by (induction s) auto

lemma find_first:
  "find P xs = Some x \<Longrightarrow> \<exists>pre post. xs = pre @ x # post \<and> P x \<and> (\<forall>u\<in>set pre. \<not> P u)"
proof (induction xs)
  case Nil
  then show ?case by simp
next
  case (Cons y ys)
  show ?case
  proof (cases "P y")
    case True
    with Cons.prems have "x = y" by simp
    with True have "y # ys = [] @ x # ys \<and> P x \<and> (\<forall>u\<in>set []. \<not> P u)" by simp
    then show ?thesis by blast
  next
    case False
    with Cons.prems have "find P ys = Some x" by simp
    with Cons.IH obtain pre post where
      "ys = pre @ x # post" "P x" "\<forall>u\<in>set pre. \<not> P u" by blast
    with False have "y # ys = (y # pre) @ x # post \<and> P x \<and> (\<forall>u\<in>set (y # pre). \<not> P u)"
      by simp
    then show ?thesis by blast
  qed
qed

subsection \<open>The comparisons change sign when their arguments are swapped\<close>

lemma compareIdentifiers_neg: "compareIdentifiers b a = - compareIdentifiers a b"
  by (simp add: compareIdentifiers_def)

lemma semver_compare_neg: "semver_compare b a = - semver_compare a b"
  by (simp add: semver_compare_def compareIdentifiers_neg [of "major a"]
      compareIdentifiers_neg [of "minor a"] compareIdentifiers_neg [of "patch a"])

lemma compareBy_neg: "compareBy f b a = - compareBy f a b"
  by (simp add: compareBy_def)

lemma lexCompare_neg:
  assumes "\<And>x y. c y x = - c x y"
  shows "lexCompare c b a = - lexCompare c a b"
proof (induction a arbitrary: b)
  case Nil
  show ?case by (cases b) simp_all
next
  case (Cons x xs)
  show ?case
  proof (cases b)
    case Nil
    then show ?thesis by simp
  next
    case (Cons y ys)
    have "c y x = - c x y" by (rule assms)
    moreover have "lexCompare c ys xs = - lexCompare c xs ys" by (rule Cons.IH)
    ultimately show ?thesis using Cons by simp
  qed
qed

lemma localeCompare_en_neg: "localeCompare_en b a = - localeCompare_en a b"
proof -
  have "lexCompare (compareBy primaryWeight) b a = - lexCompare (compareBy primaryWeight) a b"
    by (rule lexCompare_neg) (rule compareBy_neg)
  moreover
  have "lexCompare (compareBy tertiaryWeight) b a = - lexCompare (compareBy tertiaryWeight) a b"
    by (rule lexCompare_neg) (rule compareBy_neg)
  ultimately show ?thesis by (simp add: localeCompare_en_def)
qed

subsection \<open>Sorting by insertion\<close>

lemma set_insertBy: "set (insertBy cmp x ys) = insert x (set ys)"
  by (induction ys) auto

lemma set_Array_sort: "set (Array_sort cmp xs) = set xs"
  unfolding Array_sort_def by (induction xs) (simp_all add: set_insertBy)

lemma length_insertBy: "length (insertBy cmp x ys) = Suc (length ys)"
  by (induction ys) auto

lemma length_Array_sort: "length (Array_sort cmp xs) = length xs"
  unfolding Array_sort_def by (induction xs) (simp_all add: length_insertBy)

lemma sorted_insertBy:
  assumes tr: "\<forall>a\<in>S. \<forall>b\<in>S. \<forall>c\<in>S. cmp a b \<le> 0 \<and> cmp b c \<le> 0 \<longrightarrow> cmp a c \<le> 0"
    and co: "\<forall>a\<in>S. \<forall>b\<in>S. cmp a b \<le> 0 \<or> cmp b a \<le> 0"
    and x: "x \<in> S" and ys: "set ys \<subseteq> S"
    and so: "sorted_wrt (\<lambda>a b. cmp a b \<le> 0) ys"
  shows "sorted_wrt (\<lambda>a b. cmp a b \<le> 0) (insertBy cmp x ys)"
  using ys so
proof (induction ys)
  case Nil
  then show ?case by simp
next
  case (Cons y ys)
  from Cons.prems have y: "y \<in> S" and sub: "set ys \<subseteq> S"
    and yle: "\<forall>z\<in>set ys. cmp y z \<le> 0" and so': "sorted_wrt (\<lambda>a b. cmp a b \<le> 0) ys"
    by auto
  show ?case
  proof (cases "cmp x y \<le> 0")
    case True
    have "\<forall>z\<in>set ys. cmp x z \<le> 0"
    proof
      fix z assume z: "z \<in> set ys"
      with sub have "z \<in> S" by blast
      moreover from z yle have "cmp y z \<le> 0" by blast
      ultimately show "cmp x z \<le> 0" using tr x y True by blast
    qed
    with True Cons.prems show ?thesis by simp
  next
    case False
    with co x y have "cmp y x \<le> 0" by blast
    with False yle so' sub Cons.IH show ?thesis
      by (simp add: set_insertBy)
  qed
qed

lemma sorted_Array_sort:
  assumes tr: "\<forall>a\<in>S. \<forall>b\<in>S. \<forall>c\<in>S. cmp a b \<le> 0 \<and> cmp b c \<le> 0 \<longrightarrow> cmp a c \<le> 0"
    and co: "\<forall>a\<in>S. \<forall>b\<in>S. cmp a b \<le> 0 \<or> cmp b a \<le> 0"
  shows "set xs \<subseteq> S \<Longrightarrow> sorted_wrt (\<lambda>a b. cmp a b \<le> 0) (Array_sort cmp xs)"
proof (induction xs)
  case Nil
  then show ?case by (simp add: Array_sort_def)
next
  case (Cons x xs)
  then have "sorted_wrt (\<lambda>a b. cmp a b \<le> 0) (Array_sort cmp xs)" by simp
  moreover from Cons.prems have "x \<in> S" "set (Array_sort cmp xs) \<subseteq> S"
    by (simp_all add: set_Array_sort)
  ultimately have "sorted_wrt (\<lambda>a b. cmp a b \<le> 0) (insertBy cmp x (Array_sort cmp xs))"
    using sorted_insertBy [OF tr co] by blast
  then show ?case by (simp add: Array_sort_def)
qed

lemma sorted_wrt_last:
  "sorted_wrt R ys \<Longrightarrow> ys \<noteq> [] \<Longrightarrow> w \<in> set ys \<Longrightarrow> w = last ys \<or> R w (last ys)"
proof (induction ys)
  case Nil
  then show ?case by simp
next
  case (Cons y ys)
  then show ?case by (cases ys) auto
qed

lemma Array_at_last: "ys \<noteq> [] \<Longrightarrow> Array_at ys (int (length ys) - 1) = Some (last ys)"
  by (cases ys rule: rev_cases) (simp_all add: Array_at_def nth_append)

subsection \<open>Values at the names used in the examples\<close>

lemma coerce_numbers:
  "semver_coerce ''1.2.3'' = Some \<lparr>major = 1, minor = 2, patch = 3\<rparr>"
  "semver_coerce ''1.10.0'' = Some \<lparr>major = 1, minor = 10, patch = 0\<rparr>"
  "semver_coerce ''1.0.0'' = Some \<lparr>major = 1, minor = 0, patch = 0\<rparr>"
  "semver_coerce ''2.0.0'' = Some \<lparr>major = 2, minor = 0, patch = 0\<rparr>"
  by code_simp+

lemma coerce_prefixed:
  "semver_coerce ''a10'' = Some \<lparr>major = 10, minor = 0, patch = 0\<rparr>"
  "semver_coerce ''c2'' = Some \<lparr>major = 2, minor = 0, patch = 0\<rparr>"
  "semver_coerce ''b'' = None"
  by code_simp+

lemma coerce_letters:
  "semver_coerce ''a'' = None"
  "semver_coerce ''B'' = None"
  by code_simp+

lemma collate_prefixed:
  "localeCompare_en ''a10'' ''b'' = - 1"
  "localeCompare_en ''b'' ''c2'' = - 1"
  by code_simp+

lemma collate_letters: "localeCompare_en ''a'' ''B'' = - 1"
  by code_simp

lemma code_units_letters: "codeUnitCompare ''a'' ''B'' = 1"
  by code_simp

lemma cycle_examples:
  "sortComparator semver_coerce localeCompare_en
     \<lparr>ProjectDetails.name = ''a10'', tags = [], hidden = False\<rparr>
     \<lparr>ProjectDetails.name = ''b'', tags = [], hidden = False\<rparr> = - 1"
  "sortComparator semver_coerce localeCompare_en
     \<lparr>ProjectDetails.name = ''b'', tags = [], hidden = False\<rparr>
     \<lparr>ProjectDetails.name = ''c2'', tags = [], hidden = False\<rparr> = - 1"
  "sortComparator semver_coerce localeCompare_en
     \<lparr>ProjectDetails.name = ''c2'', tags = [], hidden = False\<rparr>
     \<lparr>ProjectDetails.name = ''a10'', tags = [], hidden = False\<rparr> = - 1"
  "sortComparator semver_coerce localeCompare_en
     \<lparr>ProjectDetails.name = ''a10'', tags = [], hidden = False\<rparr>
     \<lparr>ProjectDetails.name = ''c2'', tags = [], hidden = False\<rparr> = 1"
  by (simp_all add: sortComparator_def compareVersions_def asNameTags_def orEmpty_def
      coerce_prefixed collate_prefixed semver_compare_def compareIdentifiers_def)

section \<open>Properties of \<open>compareVersions\<close>\<close>

text \<open>
  Claim C2. For every pair of version descriptors \<open>a\<close>, \<open>b\<close> that do not both carry the
  tag \<open>latest\<close>, \<open>compare(a, b) = - compare(b, a)\<close>. The comparison of the host,
  \<open>localeCompare\<close>, is taken to change sign when its arguments are swapped, as the
  collations of browsers and Node do; \<open>semver.compare\<close> does (\<open>semver_compare_neg\<close>).
\<close>

theorem compareVersions_antisymmetry:
  assumes "\<forall>x y. localeCompare y x = - localeCompare x y"
    and "\<not> (''latest'' \<in> set (orEmpty (NameTags.tags a))
            \<and> ''latest'' \<in> set (orEmpty (NameTags.tags b)))"
  shows "compareVersions coerce localeCompare a b = - compareVersions coerce localeCompare b a"
proof -
  have l: "localeCompare (NameTags.name b) (NameTags.name a)
             = - localeCompare (NameTags.name a) (NameTags.name b)"
    using assms(1) by blast
  have s: "semver_compare (the (coerce (NameTags.name b))) (the (coerce (NameTags.name a)))
             = - semver_compare (the (coerce (NameTags.name a))) (the (coerce (NameTags.name b)))"
    by (rule semver_compare_neg)
  from assms(2) l s show ?thesis
    by (auto simp: compareVersions_def Let_def)
qed

text \<open>
  Claim C2, at an input: \<open>1.2.3\<close> tagged \<open>latest\<close> against an untagged \<open>1.10.0\<close>, with
  the package's \<open>coerce\<close> and the English collation.
\<close>

theorem compareVersions_antisymmetry_witness:
  "(\<forall>x y. localeCompare_en y x = - localeCompare_en x y)
   \<and> \<not> (''latest'' \<in> set (orEmpty (NameTags.tags \<lparr>NameTags.name = ''1.2.3'', tags = Some [''latest'']\<rparr>))
          \<and> ''latest'' \<in> set (orEmpty (NameTags.tags \<lparr>NameTags.name = ''1.10.0'', tags = None\<rparr>)))
   \<and> compareVersions semver_coerce localeCompare_en
         \<lparr>NameTags.name = ''1.2.3'', tags = Some [''latest'']\<rparr>
         \<lparr>NameTags.name = ''1.10.0'', tags = None\<rparr>
       = - compareVersions semver_coerce localeCompare_en
             \<lparr>NameTags.name = ''1.10.0'', tags = None\<rparr>
             \<lparr>NameTags.name = ''1.2.3'', tags = Some [''latest'']\<rparr>"
proof -
  have h1: "\<forall>x y. localeCompare_en y x = - localeCompare_en x y"
    by (intro allI) (rule localeCompare_en_neg)
  have h2: "\<not> (''latest'' \<in> set (orEmpty (NameTags.tags \<lparr>NameTags.name = ''1.2.3'', tags = Some [''latest'']\<rparr>))
          \<and> ''latest'' \<in> set (orEmpty (NameTags.tags \<lparr>NameTags.name = ''1.10.0'', tags = None\<rparr>)))"
    by (simp add: orEmpty_def)
  from h1 h2 compareVersions_antisymmetry [OF h1 h2] show ?thesis by blast
qed

text \<open>
  Claim C4, as stated, fails: with neither name coercible and no \<open>latest\<close> tag,
  \<open>compareVersions\<close> puts \<open>a\<close> before \<open>B\<close> under the English collation, while the order of
  the code units puts \<open>B\<close> (66) before \<open>a\<close> (97).
\<close>

theorem compareVersions_not_code_unit_order:
  "''latest'' \<notin> set (orEmpty (NameTags.tags \<lparr>NameTags.name = ''a'', tags = None\<rparr>))
   \<and> ''latest'' \<notin> set (orEmpty (NameTags.tags \<lparr>NameTags.name = ''B'', tags = None\<rparr>))
   \<and> semver_coerce ''a'' = None
   \<and> compareVersions semver_coerce localeCompare_en
         \<lparr>NameTags.name = ''a'', tags = None\<rparr> \<lparr>NameTags.name = ''B'', tags = None\<rparr> = - 1
   \<and> codeUnitCompare ''a'' ''B'' = 1"
  by (simp add: compareVersions_def Let_def orEmpty_def coerce_letters collate_letters code_units_letters)

text \<open>
  Claim C4, amended. For every pair of version descriptors \<open>a\<close>, \<open>b\<close> where neither
  carries the tag \<open>latest\<close> and at least one of the names cannot be coerced to a semantic
  version, \<open>compare(a, b)\<close> is the value of \<open>a.name.localeCompare(b.name)\<close>: the
  locale-sensitive comparison of the host on the raw names, not the order of the code units.
\<close>

theorem compareVersions_fallback:
  assumes "''latest'' \<notin> set (orEmpty (NameTags.tags a))"
    and "''latest'' \<notin> set (orEmpty (NameTags.tags b))"
    and "coerce (NameTags.name a) = None \<or> coerce (NameTags.name b) = None"
  shows "compareVersions coerce localeCompare a b
           = localeCompare (NameTags.name a) (NameTags.name b)"
  using assms by (simp add: compareVersions_def Let_def)

text \<open>Claim C4, amended, at the names \<open>a\<close> and \<open>B\<close>.\<close>

theorem compareVersions_fallback_witness:
  "''latest'' \<notin> set (orEmpty (NameTags.tags \<lparr>NameTags.name = ''a'', tags = None\<rparr>))
   \<and> ''latest'' \<notin> set (orEmpty (NameTags.tags \<lparr>NameTags.name = ''B'', tags = Some []\<rparr>))
   \<and> (semver_coerce (NameTags.name \<lparr>NameTags.name = ''a'', tags = None\<rparr>) = None
        \<or> semver_coerce (NameTags.name \<lparr>NameTags.name = ''B'', tags = Some []\<rparr>) = None)
   \<and> compareVersions semver_coerce localeCompare_en
         \<lparr>NameTags.name = ''a'', tags = None\<rparr> \<lparr>NameTags.name = ''B'', tags = Some []\<rparr>
       = localeCompare_en ''a'' ''B''"
proof -
  have h1: "''latest'' \<notin> set (orEmpty (NameTags.tags \<lparr>NameTags.name = ''a'', tags = None\<rparr>))"
    by (simp add: orEmpty_def)
  have h2: "''latest'' \<notin> set (orEmpty (NameTags.tags \<lparr>NameTags.name = ''B'', tags = Some []\<rparr>))"
    by (simp add: orEmpty_def)
  have h3: "semver_coerce (NameTags.name \<lparr>NameTags.name = ''a'', tags = None\<rparr>) = None
        \<or> semver_coerce (NameTags.name \<lparr>NameTags.name = ''B'', tags = Some []\<rparr>) = None"
    by (simp add: coerce_letters)
  from compareVersions_fallback [OF h1 h2 h3, of localeCompare_en]
  have "compareVersions semver_coerce localeCompare_en
         \<lparr>NameTags.name = ''a'', tags = None\<rparr> \<lparr>NameTags.name = ''B'', tags = Some []\<rparr>
       = localeCompare_en ''a'' ''B''" by simp
  with h1 h2 h3 show ?thesis by blast
qed

section \<open>Properties of \<open>getLatestVersion\<close>\<close>

lemma getLatestVersion_by_name:
  assumes "\<exists>v\<in>set versionList. String_includes (ProjectDetails.name v) ''latest''"
  shows "\<exists>pre v post. versionList = pre @ v # post
            \<and> String_includes (ProjectDetails.name v) ''latest''
            \<and> (\<forall>u\<in>set pre. \<not> String_includes (ProjectDetails.name u) ''latest'')
            \<and> fst (getLatestVersion coerce localeCompare versionList) = Some v"
proof -
  from assms obtain v where
    f: "find (\<lambda>v. String_includes (ProjectDetails.name v) ''latest'') versionList = Some v"
    by (cases "find (\<lambda>v. String_includes (ProjectDetails.name v) ''latest'') versionList")
       (auto simp: find_None_iff)
  then have "fst (getLatestVersion coerce localeCompare versionList) = Some v"
    by (simp add: getLatestVersion_def)
  with find_first [OF f] show ?thesis by blast
qed

lemma getLatestVersion_by_tag:
  assumes "\<forall>v\<in>set versionList. \<not> String_includes (ProjectDetails.name v) ''latest''"
    and "\<exists>v\<in>set versionList. ''latest'' \<in> set (ProjectDetails.tags v)"
  shows "\<exists>pre v post. versionList = pre @ v # post
            \<and> ''latest'' \<in> set (ProjectDetails.tags v)
            \<and> (\<forall>u\<in>set pre. ''latest'' \<notin> set (ProjectDetails.tags u))
            \<and> fst (getLatestVersion coerce localeCompare versionList) = Some v"
proof -
  from assms(1) have
    n: "find (\<lambda>v. String_includes (ProjectDetails.name v) ''latest'') versionList = None"
    by (simp add: find_None_iff)
  from assms(2) obtain v where
    f: "find (\<lambda>v. ''latest'' \<in> set (ProjectDetails.tags v)) versionList = Some v"
    by (cases "find (\<lambda>v. ''latest'' \<in> set (ProjectDetails.tags v)) versionList")
       (auto simp: find_None_iff)
  with n have "fst (getLatestVersion coerce localeCompare versionList) = Some v"
    by (simp add: getLatestVersion_def)
  with find_first [OF f] show ?thesis by blast
qed

lemma getLatestVersion_sorted:
  assumes "\<forall>v\<in>set versionList. \<not> String_includes (ProjectDetails.name v) ''latest''"
    and "\<forall>v\<in>set versionList. ''latest'' \<notin> set (ProjectDetails.tags v)"
  shows "getLatestVersion coerce localeCompare versionList =
           (Array_at (Array_sort (sortComparator coerce localeCompare) versionList)
              (int (length versionList) - 1),
            Array_sort (sortComparator coerce localeCompare) versionList)"
proof -
  from assms(1) have
    "find (\<lambda>v. String_includes (ProjectDetails.name v) ''latest'') versionList = None"
    by (simp add: find_None_iff)
  moreover from assms(2) have
    "find (\<lambda>v. ''latest'' \<in> set (ProjectDetails.tags v)) versionList = None"
    by (simp add: find_None_iff)
  ultimately show ?thesis
    by (simp add: getLatestVersion_def Let_def length_Array_sort)
qed

lemma getLatestVersion_by_order:
  assumes ne: "versionList \<noteq> []"
    and nn: "\<forall>v\<in>set versionList. \<not> String_includes (ProjectDetails.name v) ''latest''"
    and nt: "\<forall>v\<in>set versionList. ''latest'' \<notin> set (ProjectDetails.tags v)"
    and tr: "\<forall>a\<in>set versionList. \<forall>b\<in>set versionList. \<forall>c\<in>set versionList.
               sortComparator coerce localeCompare a b \<le> 0
               \<and> sortComparator coerce localeCompare b c \<le> 0
               \<longrightarrow> sortComparator coerce localeCompare a c \<le> 0"
    and co: "\<forall>a\<in>set versionList. \<forall>b\<in>set versionList.
               sortComparator coerce localeCompare a b \<le> 0
               \<or> sortComparator coerce localeCompare b a \<le> 0"
  shows "\<exists>v\<in>set versionList. fst (getLatestVersion coerce localeCompare versionList) = Some v
            \<and> (\<forall>w\<in>set versionList. sortComparator coerce localeCompare w v \<le> 0)"
proof -
  let ?cmp = "sortComparator coerce localeCompare"
  let ?ys = "Array_sort ?cmp versionList"
  from ne have ys: "?ys \<noteq> []"
    using length_Array_sort [of ?cmp versionList] by auto
  have so: "sorted_wrt (\<lambda>a b. ?cmp a b \<le> 0) ?ys"
    using sorted_Array_sort [OF tr co] by simp
  from ys have "Array_at ?ys (int (length ?ys) - 1) = Some (last ?ys)"
    by (rule Array_at_last)
  then have r: "fst (getLatestVersion coerce localeCompare versionList) = Some (last ?ys)"
    by (simp add: getLatestVersion_sorted [OF nn nt] length_Array_sort)
  from ys have m: "last ?ys \<in> set versionList"
    using last_in_set [of ?ys] by (simp add: set_Array_sort)
  have "\<forall>w\<in>set versionList. ?cmp w (last ?ys) \<le> 0"
  proof
    fix w assume w: "w \<in> set versionList"
    then have "w \<in> set ?ys" by (simp add: set_Array_sort)
    with so ys have "w = last ?ys \<or> ?cmp w (last ?ys) \<le> 0"
      by (rule sorted_wrt_last)
    moreover from co m have "?cmp (last ?ys) (last ?ys) \<le> 0" by blast
    ultimately show "?cmp w (last ?ys) \<le> 0" by auto
  qed
  with r m show ?thesis by blast
qed

text \<open>
  When every name coerces, \<open>compareVersions\<close> is the order of the coerced versions, which
  is transitive and total: the version returned is then a maximum.
\<close>

lemma semver_compare_trans:
  "semver_compare a b \<le> 0 \<Longrightarrow> semver_compare b c \<le> 0 \<Longrightarrow> semver_compare a c \<le> 0"
  by (auto simp: semver_compare_def compareIdentifiers_def split: if_splits)

lemma semver_compare_total: "semver_compare a b \<le> 0 \<or> semver_compare b a \<le> 0"
  by (auto simp: semver_compare_def compareIdentifiers_def split: if_splits)

lemma sortComparator_coercible:
  assumes "''latest'' \<notin> set (ProjectDetails.tags a)" "''latest'' \<notin> set (ProjectDetails.tags b)"
    and "coerce (ProjectDetails.name a) \<noteq> None" "coerce (ProjectDetails.name b) \<noteq> None"
  shows "sortComparator coerce localeCompare a b =
           semver_compare (the (coerce (ProjectDetails.name a))) (the (coerce (ProjectDetails.name b)))"
  using assms
  by (auto simp: sortComparator_def compareVersions_def asNameTags_def orEmpty_def Let_def)

lemma getLatestVersion_all_coercible:
  assumes ne: "versionList \<noteq> []"
    and nn: "\<forall>v\<in>set versionList. \<not> String_includes (ProjectDetails.name v) ''latest''"
    and nt: "\<forall>v\<in>set versionList. ''latest'' \<notin> set (ProjectDetails.tags v)"
    and co: "\<forall>v\<in>set versionList. coerce (ProjectDetails.name v) \<noteq> None"
  shows "\<exists>v\<in>set versionList. fst (getLatestVersion coerce localeCompare versionList) = Some v
            \<and> (\<forall>w\<in>set versionList. sortComparator coerce localeCompare w v \<le> 0)"
proof (rule getLatestVersion_by_order [OF ne nn nt])
  show "\<forall>a\<in>set versionList. \<forall>b\<in>set versionList. \<forall>c\<in>set versionList.
          sortComparator coerce localeCompare a b \<le> 0
          \<and> sortComparator coerce localeCompare b c \<le> 0
          \<longrightarrow> sortComparator coerce localeCompare a c \<le> 0"
    using nt co by (auto simp: sortComparator_coercible intro: semver_compare_trans)
  show "\<forall>a\<in>set versionList. \<forall>b\<in>set versionList.
          sortComparator coerce localeCompare a b \<le> 0
          \<or> sortComparator coerce localeCompare b a \<le> 0"
    using nt co semver_compare_total by (auto simp: sortComparator_coercible)
qed

text \<open>
  The three rules together. On a non-empty sequence \<open>getLatestVersion\<close> returns the first
  version whose name contains the substring \<open>latest\<close>; if no name contains it, the first
  version whose tags contain \<open>latest\<close>; and if neither exists and \<open>compareVersions\<close> is
  transitive and total on the elements of the sequence, a maximum of the sequence.
\<close>

lemma getLatestVersion_precedence:
  assumes "versionList \<noteq> []"
  shows
    "((\<exists>v\<in>set versionList. String_includes (ProjectDetails.name v) ''latest'') \<longrightarrow>
        (\<exists>pre v post. versionList = pre @ v # post
            \<and> String_includes (ProjectDetails.name v) ''latest''
            \<and> (\<forall>u\<in>set pre. \<not> String_includes (ProjectDetails.name u) ''latest'')
            \<and> fst (getLatestVersion coerce localeCompare versionList) = Some v))
     \<and> ((\<forall>v\<in>set versionList. \<not> String_includes (ProjectDetails.name v) ''latest'')
          \<and> (\<exists>v\<in>set versionList. ''latest'' \<in> set (ProjectDetails.tags v)) \<longrightarrow>
        (\<exists>pre v post. versionList = pre @ v # post
            \<and> ''latest'' \<in> set (ProjectDetails.tags v)
            \<and> (\<forall>u\<in>set pre. ''latest'' \<notin> set (ProjectDetails.tags u))
            \<and> fst (getLatestVersion coerce localeCompare versionList) = Some v))
     \<and> ((\<forall>v\<in>set versionList. \<not> String_includes (ProjectDetails.name v) ''latest'')
          \<and> (\<forall>v\<in>set versionList. ''latest'' \<notin> set (ProjectDetails.tags v))
          \<and> (\<forall>a\<in>set versionList. \<forall>b\<in>set versionList. \<forall>c\<in>set versionList.
               sortComparator coerce localeCompare a b \<le> 0
               \<and> sortComparator coerce localeCompare b c \<le> 0
               \<longrightarrow> sortComparator coerce localeCompare a c \<le> 0)
          \<and> (\<forall>a\<in>set versionList. \<forall>b\<in>set versionList.
               sortComparator coerce localeCompare a b \<le> 0
               \<or> sortComparator coerce localeCompare b a \<le> 0) \<longrightarrow>
        (\<exists>v\<in>set versionList. fst (getLatestVersion coerce localeCompare versionList) = Some v
            \<and> (\<forall>w\<in>set versionList. sortComparator coerce localeCompare w v \<le> 0)))"
proof (intro conjI impI)
  assume "\<exists>v\<in>set versionList. String_includes (ProjectDetails.name v) ''latest''"
  then show "\<exists>pre v post. versionList = pre @ v # post
            \<and> String_includes (ProjectDetails.name v) ''latest''
            \<and> (\<forall>u\<in>set pre. \<not> String_includes (ProjectDetails.name u) ''latest'')
            \<and> fst (getLatestVersion coerce localeCompare versionList) = Some v"
    by (rule getLatestVersion_by_name)
next
  assume "(\<forall>v\<in>set versionList. \<not> String_includes (ProjectDetails.name v) ''latest'')
          \<and> (\<exists>v\<in>set versionList. ''latest'' \<in> set (ProjectDetails.tags v))"
  then show "\<exists>pre v post. versionList = pre @ v # post
            \<and> ''latest'' \<in> set (ProjectDetails.tags v)
            \<and> (\<forall>u\<in>set pre. ''latest'' \<notin> set (ProjectDetails.tags u))
            \<and> fst (getLatestVersion coerce localeCompare versionList) = Some v"
    using getLatestVersion_by_tag by blast
next
  assume a: "(\<forall>v\<in>set versionList. \<not> String_includes (ProjectDetails.name v) ''latest'')
          \<and> (\<forall>v\<in>set versionList. ''latest'' \<notin> set (ProjectDetails.tags v))
          \<and> (\<forall>a\<in>set versionList. \<forall>b\<in>set versionList. \<forall>c\<in>set versionList.
               sortComparator coerce localeCompare a b \<le> 0
               \<and> sortComparator coerce localeCompare b c \<le> 0
               \<longrightarrow> sortComparator coerce localeCompare a c \<le> 0)
          \<and> (\<forall>a\<in>set versionList. \<forall>b\<in>set versionList.
               sortComparator coerce localeCompare a b \<le> 0
               \<or> sortComparator coerce localeCompare b a \<le> 0)"
  show "\<exists>v\<in>set versionList. fst (getLatestVersion coerce localeCompare versionList) = Some v
            \<and> (\<forall>w\<in>set versionList. sortComparator coerce localeCompare w v \<le> 0)"
    by (rule getLatestVersion_by_order [OF assms]) (use a in blast)+
qed

text \<open>
  The three rules at three inputs: \<open>[1.10.0, 1.2.3]\<close> (ordered by version),
  \<open>[1.0.0, latest-build]\<close> (by name) and \<open>[1.0.0, 2.0.0 tagged latest]\<close> (by tag).
\<close>

lemma getLatestVersion_precedence_examples:
  "[\<lparr>ProjectDetails.name = ''1.10.0'', tags = [], hidden = False\<rparr>,
    \<lparr>ProjectDetails.name = ''1.2.3'', tags = [], hidden = False\<rparr>] \<noteq> []
   \<and> \<not> String_includes ''1.10.0'' ''latest''
   \<and> \<not> String_includes ''1.2.3'' ''latest''
   \<and> fst (getLatestVersion semver_coerce localeCompare_en
             [\<lparr>ProjectDetails.name = ''1.10.0'', tags = [], hidden = False\<rparr>,
              \<lparr>ProjectDetails.name = ''1.2.3'', tags = [], hidden = False\<rparr>])
         = Some \<lparr>ProjectDetails.name = ''1.10.0'', tags = [], hidden = False\<rparr>
   \<and> sortComparator semver_coerce localeCompare_en
         \<lparr>ProjectDetails.name = ''1.2.3'', tags = [], hidden = False\<rparr>
         \<lparr>ProjectDetails.name = ''1.10.0'', tags = [], hidden = False\<rparr> \<le> 0
   \<and> fst (getLatestVersion semver_coerce localeCompare_en
             [\<lparr>ProjectDetails.name = ''1.0.0'', tags = [], hidden = False\<rparr>,
              \<lparr>ProjectDetails.name = ''latest-build'', tags = [], hidden = False\<rparr>])
         = Some \<lparr>ProjectDetails.name = ''latest-build'', tags = [], hidden = False\<rparr>
   \<and> fst (getLatestVersion semver_coerce localeCompare_en
             [\<lparr>ProjectDetails.name = ''1.0.0'', tags = [], hidden = False\<rparr>,
              \<lparr>ProjectDetails.name = ''2.0.0'', tags = [''latest''], hidden = False\<rparr>])
         = Some \<lparr>ProjectDetails.name = ''2.0.0'', tags = [''latest''], hidden = False\<rparr>"
proof -
  let ?a = "\<lparr>ProjectDetails.name = ''1.10.0'', tags = [], hidden = False\<rparr>"
  let ?b = "\<lparr>ProjectDetails.name = ''1.2.3'', tags = [], hidden = False\<rparr>"
  let ?c = "\<lparr>ProjectDetails.name = ''1.0.0'', tags = [], hidden = False\<rparr>"
  let ?d = "\<lparr>ProjectDetails.name = ''latest-build'', tags = [], hidden = False\<rparr>"
  let ?e = "\<lparr>ProjectDetails.name = ''2.0.0'', tags = [''latest''], hidden = False\<rparr>"
  let ?cmp = "sortComparator semver_coerce localeCompare_en"
  have ne: "[?a, ?b] \<noteq> []" "[?c, ?d] \<noteq> []" "[?c, ?e] \<noteq> []" by simp_all
  have s: "\<not> String_includes ''1.10.0'' ''latest''" "\<not> String_includes ''1.2.3'' ''latest''"
    "\<not> String_includes ''1.0.0'' ''latest''" "\<not> String_includes ''2.0.0'' ''latest''"
    "String_includes ''latest-build'' ''latest''"
    by simp_all
  have nn: "\<forall>v\<in>set [?a, ?b]. \<not> String_includes (ProjectDetails.name v) ''latest''"
    using s by simp
  have nt: "\<forall>v\<in>set [?a, ?b]. ''latest'' \<notin> set (ProjectDetails.tags v)"
    by simp
  have c: "?cmp ?a ?a = 0" "?cmp ?a ?b = 1" "?cmp ?b ?a = - 1" "?cmp ?b ?b = 0"
    by (simp_all add: sortComparator_def compareVersions_def asNameTags_def orEmpty_def
        coerce_numbers semver_compare_def compareIdentifiers_def)
  have tr: "\<forall>x\<in>set [?a, ?b]. \<forall>y\<in>set [?a, ?b]. \<forall>z\<in>set [?a, ?b].
              ?cmp x y \<le> 0 \<and> ?cmp y z \<le> 0 \<longrightarrow> ?cmp x z \<le> 0"
    by (simp add: c)
  have co: "\<forall>x\<in>set [?a, ?b]. \<forall>y\<in>set [?a, ?b]. ?cmp x y \<le> 0 \<or> ?cmp y x \<le> 0"
    by (simp add: c)
  have byname: "\<exists>v\<in>set [?c, ?d]. String_includes (ProjectDetails.name v) ''latest''"
    using s by simp
  have bytag: "(\<forall>v\<in>set [?c, ?e]. \<not> String_includes (ProjectDetails.name v) ''latest'')
      \<and> (\<exists>v\<in>set [?c, ?e]. ''latest'' \<in> set (ProjectDetails.tags v))"
    using s by simp
  from getLatestVersion_precedence [OF ne(1), of semver_coerce localeCompare_en] nn nt tr co
  obtain v where v: "v \<in> set [?a, ?b]"
    "fst (getLatestVersion semver_coerce localeCompare_en [?a, ?b]) = Some v"
    "\<forall>w\<in>set [?a, ?b]. ?cmp w v \<le> 0"
    by blast
  from v(3) have "?cmp ?a v \<le> 0" by simp
  with v(1) c(2) have "v = ?a" by auto
  with v(2) have 1: "fst (getLatestVersion semver_coerce localeCompare_en [?a, ?b]) = Some ?a"
    by simp
  from getLatestVersion_precedence [OF ne(2), of semver_coerce localeCompare_en] byname
  obtain pre u post where u: "[?c, ?d] = pre @ u # post"
    "String_includes (ProjectDetails.name u) ''latest''"
    "fst (getLatestVersion semver_coerce localeCompare_en [?c, ?d]) = Some u"
    by blast
  from u(1) have "u \<in> set [?c, ?d]" by (metis in_set_conv_decomp)
  with u(2) s(3) have "u = ?d" by auto
  with u(3) have 2: "fst (getLatestVersion semver_coerce localeCompare_en [?c, ?d]) = Some ?d"
    by simp
  from getLatestVersion_precedence [OF ne(3), of semver_coerce localeCompare_en] bytag
  obtain pre' t post' where t: "[?c, ?e] = pre' @ t # post'"
    "''latest'' \<in> set (ProjectDetails.tags t)"
    "fst (getLatestVersion semver_coerce localeCompare_en [?c, ?e]) = Some t"
    by blast
  from t(1) have "t \<in> set [?c, ?e]" by (metis in_set_conv_decomp)
  with t(2) have "t = ?e" by auto
  with t(3) have 3: "fst (getLatestVersion semver_coerce localeCompare_en [?c, ?e]) = Some ?e"
    by simp
  from c(3) have 4: "?cmp ?b ?a \<le> 0" by simp
  from ne(1) s(1) s(2) 1 2 3 4 show ?thesis by blast
qed

text \<open>
  Claim C1 says that \<open>getLatestVersion\<close>, on a non-empty sequence in which no name
  contains \<open>latest\<close> and no version is tagged \<open>latest\<close>, returns the maximum of the
  sequence under \<open>compareVersions\<close> (the name and tag rules, which come first, are the
  lemmas above). The code sorts with \<open>compareVersions\<close> and takes the last element, but
  \<open>compareVersions\<close> is not a consistent comparison on mixed names: it compares by version
  where both names coerce and by \<open>localeCompare\<close> where one does not. In \<open>[a10, b, c2]\<close>
  the names \<open>a10\<close> and \<open>c2\<close> coerce to \<open>10.0.0\<close> and \<open>2.0.0\<close> and \<open>b\<close> does not
  coerce. \<open>getLatestVersion\<close> returns \<open>c2\<close>, that is \<open>2.0.0\<close>, although \<open>a10\<close>, that is
  \<open>10.0.0\<close>, is in the sequence and compares greater. Whatever order an engine's \<open>sort\<close>
  leaves, the element returned is not a maximum: \<open>c2 < a10\<close>, \<open>b < c2\<close> and \<open>a10 < b\<close>.
\<close>

theorem getLatestVersion_not_maximum:
  "fst (getLatestVersion semver_coerce localeCompare_en
         [\<lparr>ProjectDetails.name = ''a10'', tags = [], hidden = False\<rparr>,
          \<lparr>ProjectDetails.name = ''b'', tags = [], hidden = False\<rparr>,
          \<lparr>ProjectDetails.name = ''c2'', tags = [], hidden = False\<rparr>])
     = Some \<lparr>ProjectDetails.name = ''c2'', tags = [], hidden = False\<rparr>
   \<and> sortComparator semver_coerce localeCompare_en
        \<lparr>ProjectDetails.name = ''a10'', tags = [], hidden = False\<rparr>
        \<lparr>ProjectDetails.name = ''c2'', tags = [], hidden = False\<rparr> = 1
   \<and> sortComparator semver_coerce localeCompare_en
        \<lparr>ProjectDetails.name = ''b'', tags = [], hidden = False\<rparr>
        \<lparr>ProjectDetails.name = ''c2'', tags = [], hidden = False\<rparr> = - 1
   \<and> sortComparator semver_coerce localeCompare_en
        \<lparr>ProjectDetails.name = ''a10'', tags = [], hidden = False\<rparr>
        \<lparr>ProjectDetails.name = ''b'', tags = [], hidden = False\<rparr> = - 1"
  by (simp add: getLatestVersion_def Array_sort_def Array_at_def cycle_examples)

text \<open>
  Claim C3 says that \<open>getLatestVersion\<close> fails with an \<open>InvalidInput\<close> error on the
  empty sequence. The code has no such check: both searches find nothing, the sorted array is
  empty, and the read at index \<open>-1\<close> gives \<open>undefined\<close>, which is returned although the
  declared result type is \<open>ProjectDetails\<close>.
\<close>

theorem getLatestVersion_empty:
  "getLatestVersion coerce localeCompare [] = (None, [])"
  by (simp add: getLatestVersion_def Array_sort_def Array_at_def)

text \<open>
  Claim C5 says that \<open>getLatestVersion\<close> leaves the caller's sequence as it was. The
  code sorts the array it was given in place: after the call on \<open>[2.0.0, 1.0.0]\<close> the
  caller's array reads \<open>[1.0.0, 2.0.0]\<close>.
\<close>

theorem getLatestVersion_reorders_input:
  "getLatestVersion semver_coerce localeCompare_en
     [\<lparr>ProjectDetails.name = ''2.0.0'', tags = [], hidden = False\<rparr>,
      \<lparr>ProjectDetails.name = ''1.0.0'', tags = [], hidden = False\<rparr>]
   = (Some \<lparr>ProjectDetails.name = ''2.0.0'', tags = [], hidden = False\<rparr>,
      [\<lparr>ProjectDetails.name = ''1.0.0'', tags = [], hidden = False\<rparr>,
       \<lparr>ProjectDetails.name = ''2.0.0'', tags = [], hidden = False\<rparr>])
   \<and> snd (getLatestVersion semver_coerce localeCompare_en
           [\<lparr>ProjectDetails.name = ''2.0.0'', tags = [], hidden = False\<rparr>,
            \<lparr>ProjectDetails.name = ''1.0.0'', tags = [], hidden = False\<rparr>])
       \<noteq> [\<lparr>ProjectDetails.name = ''2.0.0'', tags = [], hidden = False\<rparr>,
           \<lparr>ProjectDetails.name = ''1.0.0'', tags = [], hidden = False\<rparr>]"
proof -
  have "sortComparator semver_coerce localeCompare_en
     \<lparr>ProjectDetails.name = ''2.0.0'', tags = [], hidden = False\<rparr>
     \<lparr>ProjectDetails.name = ''1.0.0'', tags = [], hidden = False\<rparr> = 1"
    by (simp add: sortComparator_def compareVersions_def asNameTags_def orEmpty_def
      coerce_numbers semver_compare_def compareIdentifiers_def)
  then show ?thesis
    by (simp add: getLatestVersion_def Array_sort_def Array_at_def)
qed

section \<open>Properties of \<open>search\<close>\<close>

lemma nameMatchesOf_eq:
  "nameMatchesOf q pn vs =
     map (\<lambda>v. \<lparr>project = pn, version = ProjectDetails.name v\<rparr>)
       (filter (\<lambda>v. String_includes (toLowerCase (ProjectDetails.name v)) q \<and> \<not> hidden v) vs)"
  by (induction vs) auto

lemma versionNameMatches_eq:
  "versionNameMatches q ps =
     concat (map (\<lambda>p.
         map (\<lambda>v. \<lparr>project = Project.name p, version = ProjectDetails.name v\<rparr>)
           (filter (\<lambda>v. String_includes (toLowerCase (ProjectDetails.name v)) q \<and> \<not> hidden v)
              (Project.versions p)))
       ps)"
  by (induction ps) (simp_all add: nameMatchesOf_eq)

lemma tagsMatching_eq:
  "tagsMatching q pn ts =
     map (\<lambda>tag. \<lparr>project = pn, version = tag\<rparr>)
       (filter (\<lambda>tag. String_includes (toLowerCase tag) q) ts)"
  by (induction ts) auto

lemma tagMatchesOf_eq:
  "tagMatchesOf q pn vs =
     concat (map (\<lambda>matching. map (\<lambda>tag. \<lparr>project = pn, version = tag\<rparr>) matching)
       (map (\<lambda>v. filter (\<lambda>tag. String_includes (toLowerCase tag) q) (ProjectDetails.tags v))
          (filter (\<lambda>v. \<not> hidden v) vs)))"
  by (induction vs) (simp_all add: tagsMatching_eq)

lemma tagMatches_eq:
  "tagMatches q ps =
     concat (map (\<lambda>p.
         concat (map (\<lambda>matching. map (\<lambda>tag. \<lparr>project = Project.name p, version = tag\<rparr>) matching)
           (map (\<lambda>v. filter (\<lambda>tag. String_includes (toLowerCase tag) q) (ProjectDetails.tags v))
              (filter (\<lambda>v. \<not> hidden v) (Project.versions p)))))
       ps)"
  by (induction ps) (simp_all add: tagMatchesOf_eq)

lemma search_versions_eq:
  "SearchResult.versions (search projectList searchQuery) =
     versionNameMatches (trim (toLowerCase searchQuery)) projectList
     @ tagMatches (trim (toLowerCase searchQuery)) projectList"
  by (simp add: search_def Let_def versionNameMatches_eq tagMatches_eq)

lemma set_nameMatchesOf:
  "r \<in> set (nameMatchesOf q pn vs) \<longleftrightarrow>
     (\<exists>v\<in>set vs. \<not> hidden v \<and> String_includes (toLowerCase (ProjectDetails.name v)) q
         \<and> r = \<lparr>project = pn, version = ProjectDetails.name v\<rparr>)"
  by (induction vs) auto

lemma set_versionNameMatches:
  "r \<in> set (versionNameMatches q ps) \<longleftrightarrow>
     (\<exists>p\<in>set ps. \<exists>v\<in>set (Project.versions p). \<not> hidden v
         \<and> String_includes (toLowerCase (ProjectDetails.name v)) q
         \<and> r = \<lparr>project = Project.name p, version = ProjectDetails.name v\<rparr>)"
  by (induction ps) (auto simp: set_nameMatchesOf)

lemma set_tagsMatching:
  "r \<in> set (tagsMatching q pn ts) \<longleftrightarrow>
     (\<exists>t\<in>set ts. String_includes (toLowerCase t) q \<and> r = \<lparr>project = pn, version = t\<rparr>)"
  by (induction ts) auto

lemma set_tagMatchesOf:
  "r \<in> set (tagMatchesOf q pn vs) \<longleftrightarrow>
     (\<exists>v\<in>set vs. \<not> hidden v
         \<and> (\<exists>t\<in>set (ProjectDetails.tags v). String_includes (toLowerCase t) q
               \<and> r = \<lparr>project = pn, version = t\<rparr>))"
  by (induction vs) (auto simp: set_tagsMatching)

lemma set_tagMatches:
  "r \<in> set (tagMatches q ps) \<longleftrightarrow>
     (\<exists>p\<in>set ps. \<exists>v\<in>set (Project.versions p). \<not> hidden v
         \<and> (\<exists>t\<in>set (ProjectDetails.tags v). String_includes (toLowerCase t) q
               \<and> r = \<lparr>project = Project.name p, version = t\<rparr>))"
  by (induction ps) (auto simp: set_tagMatchesOf)

lemma query_examples:
  "trim (toLowerCase '' BETA '') = ''beta''"
  "trim (toLowerCase ''ALPHA'') = ''alpha''"
  "trim (toLowerCase ''  '') = []"
  by code_simp+

text \<open>
  Claim C7. For every project list and query, the \<open>versions\<close> field of the result of
  \<open>search\<close> consists of all version-name matches (versions that are not hidden and whose
  lower-cased name contains the lower-cased, trimmed query) followed by all tag matches (one
  entry per matching tag of a version that is not hidden, with the tag itself as the
  \<open>version\<close> field), each group in the order of the projects and their versions; hidden
  versions contribute to neither group.
\<close>

theorem search_versions:
  "SearchResult.versions (search projectList searchQuery) =
     versionNameMatches (trim (toLowerCase searchQuery)) projectList
     @ tagMatches (trim (toLowerCase searchQuery)) projectList
   \<and> (\<forall>r. r \<in> set (versionNameMatches (trim (toLowerCase searchQuery)) projectList) \<longleftrightarrow>
          (\<exists>p\<in>set projectList. \<exists>v\<in>set (Project.versions p). \<not> hidden v
             \<and> String_includes (toLowerCase (ProjectDetails.name v)) (trim (toLowerCase searchQuery))
             \<and> r = \<lparr>project = Project.name p, version = ProjectDetails.name v\<rparr>))
   \<and> (\<forall>r. r \<in> set (tagMatches (trim (toLowerCase searchQuery)) projectList) \<longleftrightarrow>
          (\<exists>p\<in>set projectList. \<exists>v\<in>set (Project.versions p). \<not> hidden v
             \<and> (\<exists>t\<in>set (ProjectDetails.tags v).
                   String_includes (toLowerCase t) (trim (toLowerCase searchQuery))
                   \<and> r = \<lparr>project = Project.name p, version = t\<rparr>)))"
  by (simp add: search_versions_eq set_versionNameMatches set_tagMatches)

text \<open>
  Claim C7, at an input: the query \<open>BETA\<close> between blanks finds the visible version
  \<open>1.0-Beta\<close> of \<open>docat\<close> and then its tag \<open>v1-beta\<close>; the hidden versions
  \<open>2.0-beta\<close> and \<open>0.1\<close> (tagged \<open>beta\<close>) give nothing.
\<close>

theorem search_versions_witness:
  "SearchResult.versions (search exampleProjects '' BETA '') =
     [\<lparr>project = ''docat'', version = ''1.0-Beta''\<rparr>, \<lparr>project = ''docat'', version = ''v1-beta''\<rparr>]"
proof -
  have n: "versionNameMatches ''beta'' exampleProjects = [\<lparr>project = ''docat'', version = ''1.0-Beta''\<rparr>]"
    by code_simp
  have t: "tagMatches ''beta'' exampleProjects = [\<lparr>project = ''docat'', version = ''v1-beta''\<rparr>]"
    by code_simp
  from search_versions [of exampleProjects "'' BETA ''"] n t show ?thesis
    by (simp add: query_examples)
qed

text \<open>
  Claim C8. For every project list and query, a project appears in the \<open>projects\<close> field
  of the result of \<open>search\<close> if and only if its lower-cased name contains the lower-cased,
  trimmed query and the project has at least one version that is not hidden; in particular a
  project all of whose versions are hidden never appears, whatever the query.
\<close>

theorem search_projects:
  "SearchResult.projects (search projectList searchQuery) =
     map (\<lambda>p. \<lparr>ProjectSearchResult.name = Project.name p\<rparr>)
       (filter (\<lambda>p. String_includes (toLowerCase (Project.name p)) (trim (toLowerCase searchQuery))
                     \<and> (\<exists>v\<in>set (Project.versions p). \<not> hidden v))
          projectList)
   \<and> (\<forall>n. \<lparr>ProjectSearchResult.name = n\<rparr> \<in> set (SearchResult.projects (search projectList searchQuery))
          \<longleftrightarrow> (\<exists>p\<in>set projectList. Project.name p = n
                 \<and> String_includes (toLowerCase n) (trim (toLowerCase searchQuery))
                 \<and> (\<exists>v\<in>set (Project.versions p). \<not> hidden v)))
   \<and> (\<forall>n. (\<forall>p\<in>set projectList. Project.name p = n \<longrightarrow>
                 (\<forall>v\<in>set (Project.versions p). hidden v)) \<longrightarrow>
          \<lparr>ProjectSearchResult.name = n\<rparr>
            \<notin> set (SearchResult.projects (search projectList searchQuery)))"
  by (auto simp: search_def Let_def list_ex_iff)

text \<open>
  Claim C8, at an input: the query \<open>ALPHA\<close> finds \<open>Alpha\<close> and not \<open>alpha-internal\<close>,
  whose versions are all hidden.
\<close>

theorem search_projects_witness:
  "SearchResult.projects (search exampleProjects ''ALPHA'') = [\<lparr>ProjectSearchResult.name = ''Alpha''\<rparr>]"
proof -
  have "map (\<lambda>p. \<lparr>ProjectSearchResult.name = Project.name p\<rparr>)
       (filter (\<lambda>p. String_includes (toLowerCase (Project.name p)) ''alpha''
                     \<and> (\<exists>v\<in>set (Project.versions p). \<not> hidden v))
          exampleProjects) = [\<lparr>ProjectSearchResult.name = ''Alpha''\<rparr>]"
    by code_simp
  with search_projects [of exampleProjects "''ALPHA''"] show ?thesis
    by (simp add: query_examples)
qed

text \<open>
  Claim C10. For every project list and every query that is empty after lower-casing and
  trimming, \<open>search\<close> returns every project with at least one version that is not hidden in
  \<open>projects\<close>, and in \<open>versions\<close> every version that is not hidden followed by one
  entry per tag of every version that is not hidden.
\<close>

theorem search_empty_query:
  assumes "trim (toLowerCase searchQuery) = []"
  shows "SearchResult.projects (search projectList searchQuery) =
           map (\<lambda>p. \<lparr>ProjectSearchResult.name = Project.name p\<rparr>)
             (filter (\<lambda>p. \<exists>v\<in>set (Project.versions p). \<not> hidden v) projectList)
         \<and> SearchResult.versions (search projectList searchQuery) =
             concat (map (\<lambda>p.
                 map (\<lambda>v. \<lparr>project = Project.name p, version = ProjectDetails.name v\<rparr>)
                   (filter (\<lambda>v. \<not> hidden v) (Project.versions p)))
               projectList)
             @ concat (map (\<lambda>p.
                 concat (map (\<lambda>v. map (\<lambda>tag. \<lparr>project = Project.name p, version = tag\<rparr>)
                                   (ProjectDetails.tags v))
                   (filter (\<lambda>v. \<not> hidden v) (Project.versions p))))
               projectList)"
  using assms
  by (simp add: search_def Let_def String_includes_empty list_ex_iff comp_def)

text \<open>Claim C10, at an input: the query of two blanks.\<close>

theorem search_empty_query_witness:
  "trim (toLowerCase ''  '') = []
   \<and> SearchResult.projects (search exampleProjects ''  '') =
       [\<lparr>ProjectSearchResult.name = ''docat''\<rparr>, \<lparr>ProjectSearchResult.name = ''Alpha''\<rparr>]
   \<and> SearchResult.versions (search exampleProjects ''  '') =
       [\<lparr>project = ''docat'', version = ''1.0-Beta''\<rparr>, \<lparr>project = ''Alpha'', version = ''1.0''\<rparr>,
        \<lparr>project = ''docat'', version = ''v1-beta''\<rparr>, \<lparr>project = ''docat'', version = ''stable''\<rparr>]"
proof -
  have h: "trim (toLowerCase ''  '') = []" by (rule query_examples)
  from search_empty_query [OF h, of exampleProjects] h show ?thesis by simp
qed

section \<open>Properties of \<open>filterHiddenVersions\<close>\<close>

lemma JSON_parse_refs:
  "JSON_parse ps h = (rs, h') \<Longrightarrow> rs = [fresh h ..< fresh h + length ps]"
proof (induction ps arbitrary: h rs h')
  case Nil
  then show ?case by simp
next
  case (Cons p ps)
  let ?h1 = "\<lparr>object = (object h)(fresh h := p), fresh = Suc (fresh h)\<rparr>"
  obtain rs0 h0 where r: "JSON_parse ps ?h1 = (rs0, h0)"
    by (cases "JSON_parse ps ?h1")
  from Cons.IH [OF r] have "rs0 = [Suc (fresh h) ..< Suc (fresh h) + length ps]" by simp
  moreover from Cons.prems r have "rs = fresh h # rs0" by simp
  ultimately show ?case by (simp del: upt_Suc add: upt_conv_Cons)
qed

lemma JSON_parse_frame:
  "JSON_parse ps h = (rs, h') \<Longrightarrow> a < fresh h \<Longrightarrow> object h' a = object h a"
proof (induction ps arbitrary: h rs h')
  case Nil
  then show ?case by simp
next
  case (Cons p ps)
  let ?h1 = "\<lparr>object = (object h)(fresh h := p), fresh = Suc (fresh h)\<rparr>"
  obtain rs0 h0 where r: "JSON_parse ps ?h1 = (rs0, h0)"
    by (cases "JSON_parse ps ?h1")
  from Cons.prems(2) have "a < fresh ?h1" by simp
  with Cons.IH [OF r] have "object h0 a = object ?h1 a" by blast
  moreover from Cons.prems(1) r have "h' = h0" by simp
  ultimately show ?case using Cons.prems(2) by simp
qed

lemma JSON_parse_content:
  "JSON_parse ps h = (rs, h') \<Longrightarrow> map (object h') rs = ps"
proof (induction ps arbitrary: h rs h')
  case Nil
  then show ?case by simp
next
  case (Cons p ps)
  let ?h1 = "\<lparr>object = (object h)(fresh h := p), fresh = Suc (fresh h)\<rparr>"
  obtain rs0 h0 where r: "JSON_parse ps ?h1 = (rs0, h0)"
    by (cases "JSON_parse ps ?h1")
  from Cons.prems r have e: "rs = fresh h # rs0" "h' = h0" by simp_all
  have "fresh h < fresh ?h1" by simp
  with JSON_parse_frame [OF r] have "object h0 (fresh h) = object ?h1 (fresh h)" by blast
  then have "object h0 (fresh h) = p" by simp
  with Cons.IH [OF r] e show ?case by simp
qed

lemma fresh_fold_dropHidden: "fresh (fold dropHidden rs h) = fresh h"
  by (induction rs arbitrary: h) (simp_all add: dropHidden_def)

lemma object_fold_dropHidden:
  "object (fold dropHidden rs h) a =
     (if a \<in> set rs then withoutHidden (object h a) else object h a)"
proof (induction rs arbitrary: h)
  case Nil
  show ?case by simp
next
  case (Cons r rs)
  have "withoutHidden (withoutHidden (object h a)) = withoutHidden (object h a)"
    by (simp add: withoutHidden_def)
  then show ?case
    by (simp add: Cons.IH) (simp add: dropHidden_def withoutHidden_def)
qed

text \<open>
  Claim C6. For every project list, \<open>filterHiddenVersions\<close> returns a new collection in
  which every version with \<open>hidden = true\<close> is removed from each project's version list
  and every project left with no version is dropped, and it never changes its argument: the
  objects that existed before the call (those below \<open>fresh\<close>), among them the projects of
  the argument, have the content they had, and the result refers to new objects only.
\<close>

theorem filterHiddenVersions_copy:
  "map (object (snd (filterHiddenVersions allProjects h))) (fst (filterHiddenVersions allProjects h))
     = filter (\<lambda>p. Project.versions p \<noteq> [])
         (map (\<lambda>a. withoutHidden (object h a)) allProjects)
   \<and> (\<forall>a. a < fresh h \<longrightarrow> object (snd (filterHiddenVersions allProjects h)) a = object h a)
   \<and> (\<forall>r\<in>set (fst (filterHiddenVersions allProjects h)). fresh h \<le> r)
   \<and> ((\<forall>a\<in>set allProjects. a < fresh h) \<longrightarrow>
         map (object (snd (filterHiddenVersions allProjects h))) allProjects
           = map (object h) allProjects)"
proof -
  obtain rs h1 where p: "JSON_parse (JSON_stringify h allProjects) h = (rs, h1)"
    by (cases "JSON_parse (JSON_stringify h allProjects) h")
  let ?h2 = "fold dropHidden rs h1"
  from JSON_parse_refs [OF p] have rs: "rs = [fresh h ..< fresh h + length allProjects]"
    by (simp add: JSON_stringify_def)
  from JSON_parse_frame [OF p] have below: "\<forall>a. a < fresh h \<longrightarrow> object h1 a = object h a"
    by blast
  from JSON_parse_content [OF p] have content: "map (object h1) rs = map (object h) allProjects"
    by (simp add: JSON_stringify_def)
  from p have f: "filterHiddenVersions allProjects h =
      (filter (\<lambda>p. length (Project.versions (object ?h2 p)) > 0) rs, ?h2)"
    by (simp add: filterHiddenVersions_def Let_def)
  have obj: "map (object ?h2) rs = map (\<lambda>a. withoutHidden (object h a)) allProjects"
  proof -
    have "map (object ?h2) rs = map (\<lambda>a. withoutHidden (object h1 a)) rs"
      by (simp add: object_fold_dropHidden)
    also have "\<dots> = map withoutHidden (map (object h1) rs)" by simp
    also have "\<dots> = map withoutHidden (map (object h) allProjects)" by (simp only: content)
    finally show ?thesis by simp
  qed
  have 1: "map (object ?h2) (filter (\<lambda>p. length (Project.versions (object ?h2 p)) > 0) rs)
      = filter (\<lambda>p. Project.versions p \<noteq> []) (map (\<lambda>a. withoutHidden (object h a)) allProjects)"
  proof -
    have "map (object ?h2) (filter (\<lambda>p. length (Project.versions (object ?h2 p)) > 0) rs)
        = filter (\<lambda>p. Project.versions p \<noteq> []) (map (object ?h2) rs)"
      by (simp add: filter_map comp_def)
    with obj show ?thesis by simp
  qed
  have 2: "\<forall>a. a < fresh h \<longrightarrow> object ?h2 a = object h a"
  proof (intro allI impI)
    fix a assume a: "a < fresh h"
    with rs have "a \<notin> set rs" by simp
    then have "object ?h2 a = object h1 a" by (simp add: object_fold_dropHidden)
    with a below show "object ?h2 a = object h a" by simp
  qed
  have 3: "\<forall>r\<in>set (filter (\<lambda>p. length (Project.versions (object ?h2 p)) > 0) rs). fresh h \<le> r"
    using rs by simp
  have 4: "(\<forall>a\<in>set allProjects. a < fresh h) \<longrightarrow>
         map (object ?h2) allProjects = map (object h) allProjects"
    using 2 by simp
  from 1 2 3 4 show ?thesis by (simp only: f fst_conv snd_conv)
qed

text \<open>
  Claim C6, at an input: the array of \<open>docat\<close> and \<open>alpha-internal\<close> (references 0 and 2).
\<close>

theorem filterHiddenVersions_copy_witness:
  "(0::nat) < fresh exampleStore
   \<and> map (object (snd (filterHiddenVersions [0, 2] exampleStore)))
         (fst (filterHiddenVersions [0, 2] exampleStore))
       = [\<lparr>Project.name = ''docat'',
            versions = [\<lparr>ProjectDetails.name = ''1.0-Beta'', tags = [''v1-beta'', ''stable''],
                          hidden = False\<rparr>]\<rparr>]
   \<and> object (snd (filterHiddenVersions [0, 2] exampleStore)) 0 = object exampleStore 0
   \<and> map (object (snd (filterHiddenVersions [0, 2] exampleStore))) [0, 2]
       = map (object exampleStore) [0, 2]"
proof -
  have h: "(0::nat) < fresh exampleStore" by simp
  have i: "\<forall>a\<in>set [0, 2]. a < fresh exampleStore" by simp
  have e: "filter (\<lambda>p. Project.versions p \<noteq> [])
         (map (\<lambda>a. withoutHidden (object exampleStore a)) [0, 2])
       = [\<lparr>Project.name = ''docat'',
            versions = [\<lparr>ProjectDetails.name = ''1.0-Beta'', tags = [''v1-beta'', ''stable''],
                          hidden = False\<rparr>]\<rparr>]"
    by (simp add: withoutHidden_def)
  note t = filterHiddenVersions_copy [of "[0, 2]" exampleStore]
  from t have "map (object (snd (filterHiddenVersions [0, 2] exampleStore)))
         (fst (filterHiddenVersions [0, 2] exampleStore))
       = filter (\<lambda>p. Project.versions p \<noteq> [])
           (map (\<lambda>a. withoutHidden (object exampleStore a)) [0, 2])"
    by (rule conjunct1)
  from this e have 1: "map (object (snd (filterHiddenVersions [0, 2] exampleStore)))
         (fst (filterHiddenVersions [0, 2] exampleStore))
       = [\<lparr>Project.name = ''docat'',
            versions = [\<lparr>ProjectDetails.name = ''1.0-Beta'', tags = [''v1-beta'', ''stable''],
                          hidden = False\<rparr>]\<rparr>]"
    by (rule trans)
  from t h have 2: "object (snd (filterHiddenVersions [0, 2] exampleStore)) 0
      = object exampleStore 0"
    by blast
  from t i have 3: "map (object (snd (filterHiddenVersions [0, 2] exampleStore))) [0, 2]
       = map (object exampleStore) [0, 2]"
    by blast
  from h 1 2 3 show ?thesis by blast
qed

section \<open>Properties of the FavoriteStore\<close>

text \<open>
  Claim C9. For every project name \<open>p\<close> and every state of the key-value store:
  \<open>isFavorite p\<close> is false when the store has no entry for \<open>p\<close> or an entry other than
  the sentinel \<open>favorite\<close>; \<open>setFavorite p true\<close> writes the sentinel under key \<open>p\<close> (and
  \<open>isFavorite p\<close> is then true); \<open>setFavorite p false\<close> removes key \<open>p\<close>; and after
  \<open>setFavorite p true\<close> followed by \<open>setFavorite p false\<close> the store has no key \<open>p\<close> and
  \<open>isFavorite p\<close> is false.
\<close>

theorem favorite_store:
  "(getItem st p = None \<or> getItem st p \<noteq> Some ''favorite'' \<longrightarrow> \<not> isFavorite p st)
   \<and> getItem (setFavorite p True st) p = Some ''favorite''
   \<and> isFavorite p (setFavorite p True st)
   \<and> p \<notin> dom (setFavorite p False st)
   \<and> p \<notin> dom (setFavorite p False (setFavorite p True st))
   \<and> \<not> isFavorite p (setFavorite p False (setFavorite p True st))"
  by (simp add: isFavorite_def setFavorite_def getItem_def setItem_def removeItem_def)

theorem favorite_store_witness:
  "getItem [''docat'' \<mapsto> ''pinned''] ''docat'' \<noteq> Some ''favorite''
   \<and> \<not> isFavorite ''docat'' [''docat'' \<mapsto> ''pinned'']
   \<and> getItem Map.empty ''docat'' = None
   \<and> \<not> isFavorite ''docat'' Map.empty
   \<and> ''docat'' \<notin> dom (setFavorite ''docat'' False (setFavorite ''docat'' True Map.empty))"
proof -
  have a: "getItem [''docat'' \<mapsto> ''pinned''] ''docat'' \<noteq> Some ''favorite''"
    by (simp add: getItem_def)
  have b: "getItem Map.empty ''docat'' = None"
    by (simp add: getItem_def)
  from a favorite_store [of "[''docat'' \<mapsto> ''pinned'']" "''docat''"]
  have c: "\<not> isFavorite ''docat'' [''docat'' \<mapsto> ''pinned'']" by blast
  from b favorite_store [of Map.empty "''docat''"]
  have d: "\<not> isFavorite ''docat'' Map.empty
    \<and> ''docat'' \<notin> dom (setFavorite ''docat'' False (setFavorite ''docat'' True Map.empty))"
    by blast
  from a b c d show ?thesis by blast
qed

end
